theory Spec2Isabelle
  imports Main "HOL-Library.Word"
begin

section \<open>Values, events and buffers\<close>

text \<open>
  The server is three TypeScript files: \<^verbatim>\<open>connection.ts\<close> (class Connection),
  \<^verbatim>\<open>room.ts\<close> (class Room) and \<^verbatim>\<open>index.ts\<close> (the socket handlers and the liveness
  sweep). The text of index.ts holds two revisions of the file, one after the other;
  the later one (from line 279 on), whose \<^verbatim>\<open>join\<close> and \<^verbatim>\<open>client\<close> handlers check the client
  id, is the one modelled, and line numbers are those of the whole text. Payloads are whatever \<^verbatim>\<open>JSON.parse\<close> returns, so they are modelled as a
  datatype of JavaScript values. Numbers are the integers the protocol carries
  (player and client ids); a \<open>char\<close> of a string stands for one code unit.
\<close>

datatype jsval =
    Undefined
  | Null
  | Bool bool
  | Num int
  | Str string
  | Arr "jsval list"
  | Obj "(string \<times> jsval) list"

text \<open>The exceptions the modelled code can raise.\<close>

datatype exn = TypeError | RangeError | SyntaxError

text \<open>
  Modelled from the spec: the enumeration \<^verbatim>\<open>Events\<close> of \<^verbatim>\<open>events.ts\<close>, which is not
  among the sources. The spec lists its members (section 6, event code set); their
  numeric codes are taken to be those of a TypeScript numeric enum declared in that
  order. No property below depends on the particular numbers.
\<close>

datatype Events = Authentication | Join | Leave | SetClient | SetClients | Signal

fun Events_code :: "Events \<Rightarrow> nat" where
  "Events_code Authentication = 0"
| "Events_code Join = 1"
| "Events_code Leave = 2"
| "Events_code SetClient = 3"
| "Events_code SetClients = 4"
| "Events_code Signal = 5"

definition Events_of :: "nat \<Rightarrow> Events option" where
  "Events_of n =
     (if n = 0 then Some Authentication
      else if n = 1 then Some Join
      else if n = 2 then Some Leave
      else if n = 3 then Some SetClient
      else if n = 4 then Some SetClients
      else if n = 5 then Some Signal
      else None)"

type_synonym byte = "8 word"
type_synonym buffer = "byte list"

subsection \<open>JavaScript operators the handlers use\<close>

text \<open>\<^verbatim>\<open>if (v)\<close> and \<^verbatim>\<open>!v\<close>: the falsy values are undefined, null, false, 0 and the
  empty string.\<close>

fun truthy :: "jsval \<Rightarrow> bool" where
  "truthy Undefined = False"
| "truthy Null = False"
| "truthy (Bool b) = b"
| "truthy (Num n) = (n \<noteq> 0)"
| "truthy (Str s) = (s \<noteq> [])"
| "truthy (Arr xs) = True"
| "truthy (Obj kvs) = True"

text \<open>\<^verbatim>\<open>v instanceof Object\<close>: arrays and objects, no primitive value.\<close>

fun instanceof_Object :: "jsval \<Rightarrow> bool" where
  "instanceof_Object (Arr xs) = True"
| "instanceof_Object (Obj kvs) = True"
| "instanceof_Object v = False"

text \<open>
  \<^verbatim>\<open>a === b\<close> where \<open>a\<close> is a value stored on a Connection by an earlier frame and
  \<open>b\<close> comes from the frame being handled: primitives are compared by value; two
  arrays or objects are the same only when they are the same reference, which values
  of two different \<^verbatim>\<open>JSON.parse\<close> calls never are.
\<close>

definition strict_eq :: "jsval \<Rightarrow> jsval \<Rightarrow> bool" where
  "strict_eq a b = (\<not> instanceof_Object a \<and> a = b)"

text \<open>\<^verbatim>\<open>v != null\<close> (loose): false exactly for null and undefined.\<close>

definition not_nullish :: "jsval \<Rightarrow> bool" where
  "not_nullish v = (v \<noteq> Null \<and> v \<noteq> Undefined)"

section \<open>Wire codec\<close>

subsection \<open>Encoding: \<^verbatim>\<open>Connection.send\<close>\<close>

text \<open>
  \<^verbatim>\<open>send(event, ...data)\<close>, lines 46-70 of connection.ts. The value handed to
  \<^verbatim>\<open>JSON.stringify\<close>: nothing when there is no argument; the first argument when it is
  an \<^verbatim>\<open>instanceof Object\<close>; the array of all arguments otherwise.
\<close>

definition send_payload :: "jsval list \<Rightarrow> jsval option" where
  "send_payload data =
     (if length data > 0
      then Some (if instanceof_Object (hd data) then hd data else Arr data)
      else None)"

text \<open>Node's \<^verbatim>\<open>Buffer.writeUInt8\<close> and \<^verbatim>\<open>Buffer.writeUInt16BE\<close> raise a RangeError
  on a value that does not fit.\<close>

definition writeUInt8 :: "nat \<Rightarrow> exn + buffer" where
  "writeUInt8 v = (if v > 255 then Inl RangeError else Inr [word_of_nat v])"

definition writeUInt16BE :: "nat \<Rightarrow> exn + buffer" where
  "writeUInt16BE v =
     (if v > 65535 then Inl RangeError
      else Inr [word_of_nat (v div 256), word_of_nat (v mod 256)])"

text \<open>
  \<open>stringify\<close> stands for \<^verbatim>\<open>Buffer.from(JSON.stringify(v))\<close>, the UTF-8 bytes of the
  JSON text: library code, taken as a parameter. The result is the buffer handed to
  \<^verbatim>\<open>socket.send\<close>, or the exception raised before it.
\<close>

definition send :: "(jsval \<Rightarrow> buffer) \<Rightarrow> nat \<Rightarrow> jsval list \<Rightarrow> exn + buffer" where
  "send stringify event data =
     (let dataBuf = map_option stringify (send_payload data) in
      case writeUInt8 event of
        Inl e \<Rightarrow> Inl e
      | Inr b0 \<Rightarrow>
         (case writeUInt16BE (case dataBuf of Some d \<Rightarrow> length d | None \<Rightarrow> 0) of
            Inl e \<Rightarrow> Inl e
          | Inr b12 \<Rightarrow>
             Inr (case dataBuf of Some d \<Rightarrow> (b0 @ b12) @ d | None \<Rightarrow> b0 @ b12)))"

subsection \<open>Decoding: the head of \<^verbatim>\<open>socket.on('message')\<close>\<close>

definition readUInt8 :: "buffer \<Rightarrow> nat \<Rightarrow> nat" where
  "readUInt8 buf off = unat (buf ! off)"

definition readUInt16BE :: "buffer \<Rightarrow> nat \<Rightarrow> nat" where
  "readUInt16BE buf off = unat (buf ! off) * 256 + unat (buf ! (off + 1))"

text \<open>
  Lines 397-409 of index.ts. \<open>parse\<close> stands for
  \<^verbatim>\<open>JSON.parse(buf.toString('utf8', 3, 3 + len))\<close> on the sliced bytes, \<open>None\<close> when
  it raises a SyntaxError. A buffer shorter than 3 bytes makes the handler terminate
  the socket. Both reads are in range once the length check has passed.
\<close>

datatype decoded = Malformed | Thrown exn | Decoded nat jsval

definition decode :: "(buffer \<Rightarrow> jsval option) \<Rightarrow> buffer \<Rightarrow> decoded" where
  "decode parse buf =
     (if length buf < 3 then Malformed
      else
        let type = readUInt8 buf 0;
            len = readUInt16BE buf 1
        in if len > 0
           then (case parse (take len (drop 3 buf)) of
                   None \<Rightarrow> Thrown SyntaxError
                 | Some data \<Rightarrow> Decoded type data)
           else Decoded type Null)"

text \<open>
  A sample of the JSON library for concrete runs: the serialisation of five values,
  and the parse of those five texts.
  \<^verbatim>\<open>5\<close> is the byte 0x35, \<^verbatim>\<open>[5]\<close> is 0x5B 0x35 0x5D, \<^verbatim>\<open>{}\<close> is 0x7B 0x7D,
  \<^verbatim>\<open>[{},2]\<close> is 0x5B 0x7B 0x7D 0x2C 0x32 0x5D and \<^verbatim>\<open>[1,100]\<close> is
  0x5B 0x31 0x2C 0x31 0x30 0x30 0x5D.
\<close>

definition sample_json :: "(jsval \<times> buffer) list" where
  "sample_json =
     [(Num 5, [0x35]),
      (Arr [Num 5], [0x5B, 0x35, 0x5D]),
      (Obj [], [0x7B, 0x7D]),
      (Arr [Obj [], Num 2], [0x5B, 0x7B, 0x7D, 0x2C, 0x32, 0x5D]),
      (Arr [Num 1, Num 100], [0x5B, 0x31, 0x2C, 0x31, 0x30, 0x30, 0x5D])]"

definition sample_stringify :: "jsval \<Rightarrow> buffer" where
  "sample_stringify v = (case map_of sample_json v of Some b \<Rightarrow> b | None \<Rightarrow> [])"

definition sample_parse :: "buffer \<Rightarrow> jsval option" where
  "sample_parse b = map_of (map (\<lambda>(v, t). (t, v)) sample_json) b"

section \<open>Connections, rooms and the registries\<close>

text \<open>
  A Connection object is created in one place, the \<^verbatim>\<open>authenticate\<close> handler, which gives
  it its \<^verbatim>\<open>id\<close> from the ID source at once and never changes it. The objects live in
  a store addressed by that id, and the Room member lists and the Connection Registry
  hold ids, as the source's arrays hold references. The ID source (the snowflake
  generator) is outside the sources: the id it returns is an input of the handler.
  A field that was never assigned is \<^verbatim>\<open>undefined\<close>: \<open>Undefined\<close> for the two ids,
  \<open>None\<close> for \<^verbatim>\<open>room\<close> (which \<^verbatim>\<open>leave\<close> resets to \<^verbatim>\<open>null\<close>; the code only tests it for
  truth and dereferences it) and for \<^verbatim>\<open>isAlive\<close>.
\<close>

type_synonym conn_id = string
type_synonym sock = nat

record connection =
  socket :: sock
  playerId :: jsval
  clientId :: jsval
  room :: "string option"
  isAlive :: "bool option"

definition new_Connection :: "sock \<Rightarrow> connection" where
  "new_Connection s =
     \<lparr>socket = s, playerId = Undefined, clientId = Undefined, room = None, isAlive = None\<rparr>"

text \<open>
  \<open>rooms\<close> is the map \<^verbatim>\<open>rooms\<close> from room code to Room, a Room being its member list
  \<^verbatim>\<open>connections\<close>; \<open>connections\<close> is the Connection Registry; \<open>connection_of\<close> is
  the variable \<^verbatim>\<open>connection\<close> of each socket's closure, unset until that socket
  authenticates. A Room object is named by its code: a Room is created only for a
  code that has no entry and leaves the map only when a member's departure empties
  it, so a Room outside the map has no member and no Connection refers to it. The
  connection counter, the log and the two timers are left out.
\<close>

record state =
  rooms :: "string \<rightharpoonup> conn_id list"
  connections :: "conn_id list"
  heap :: "conn_id \<Rightarrow> connection"
  connection_of :: "sock \<rightharpoonup> conn_id"

definition init :: state where
  "init = \<lparr>rooms = Map.empty, connections = [], heap = (\<lambda>c. new_Connection 0),
            connection_of = Map.empty\<rparr>"

text \<open>
  What a handler does to the outside: \<^verbatim>\<open>socket.terminate()\<close>, a call
  \<^verbatim>\<open>send(event, ...args)\<close> of the Connection on that socket, and \<^verbatim>\<open>socket.ping\<close>.
  A \<open>Send\<close> is the call: the bytes it writes, and the RangeError it raises instead
  when the serialisation is longer than 65535 bytes, are those of \<open>send\<close> above at
  \<open>Events_code event\<close>; the handlers are followed as far as their calls of \<^verbatim>\<open>send\<close>
  return. A handler returns, or raises an exception; \<open>NotModelled\<close> marks the frames
  whose handling needs coercions of JavaScript that are not modelled.
\<close>

datatype effect = Terminate sock | Send sock Events "jsval list" | Ping sock

datatype completion = Returned | Threw exn | NotModelled

type_synonym result = "state \<times> effect list \<times> completion"

subsection \<open>class Room (room.ts)\<close>

definition room_connections :: "state \<Rightarrow> string \<Rightarrow> conn_id list" where
  "room_connections st k = (case rooms st k of Some m \<Rightarrow> m | None \<Rightarrow> [])"

definition Connection_send :: "state \<Rightarrow> conn_id \<Rightarrow> Events \<Rightarrow> jsval list \<Rightarrow> effect" where
  "Connection_send st this event args = Send (socket (heap st this)) event args"

definition Room_broadcast ::
  "state \<Rightarrow> string \<Rightarrow> (conn_id \<Rightarrow> bool) \<Rightarrow> Events \<Rightarrow> jsval list \<Rightarrow> effect list" where
  "Room_broadcast st k test event args =
     map (\<lambda>s. Connection_send st s event args) (filter test (room_connections st k))"

definition Room_count :: "state \<Rightarrow> string \<Rightarrow> nat" where
  "Room_count st k = length (room_connections st k)"

definition Room_find :: "state \<Rightarrow> string \<Rightarrow> conn_id \<Rightarrow> conn_id option" where
  "Room_find st k i = find (\<lambda>s. s = i) (room_connections st k)"

text \<open>\<^verbatim>\<open>add\<close> is called by \<^verbatim>\<open>Connection.join\<close> only, on a room of the map.\<close>

definition Room_add :: "state \<Rightarrow> string \<Rightarrow> conn_id \<Rightarrow> state" where
  "Room_add st k c = st\<lparr>rooms := (rooms st)(k \<mapsto> room_connections st k @ [c])\<rparr>"

text \<open>\<^verbatim>\<open>remove\<close>: \<^verbatim>\<open>indexOf\<close> and \<^verbatim>\<open>splice(index, 1)\<close> take out the first occurrence.\<close>

definition Room_remove :: "state \<Rightarrow> string \<Rightarrow> conn_id \<Rightarrow> state" where
  "Room_remove st k c = st\<lparr>rooms := (rooms st)(k := map_option (remove1 c) (rooms st k))\<rparr>"

text \<open>\<^verbatim>\<open>ids[key] = v\<close> on an object: an existing property is overwritten in place, a
  new one is added last.\<close>

fun obj_set :: "(string \<times> jsval) list \<Rightarrow> string \<Rightarrow> jsval \<Rightarrow> (string \<times> jsval) list" where
  "obj_set [] k v = [(k, v)]"
| "obj_set ((k', v') # kvs) k v =
     (if k' = k then (k, v) # kvs else (k', v') # obj_set kvs k v)"

definition client_entry :: "connection \<Rightarrow> jsval" where
  "client_entry s = Obj [(''id'', playerId s), (''clientId'', clientId s)]"

definition Room_clients :: "state \<Rightarrow> string \<Rightarrow> (conn_id \<Rightarrow> bool) \<Rightarrow> jsval" where
  "Room_clients st k test =
     Obj (fold (\<lambda>s ids. if truthy (playerId (heap st s))
                         then obj_set ids s (client_entry (heap st s))
                         else ids)
            (filter test (room_connections st k)) [])"

subsection \<open>class Connection (connection.ts)\<close>

definition Connection_join :: "state \<Rightarrow> conn_id \<Rightarrow> string \<Rightarrow> jsval \<Rightarrow> state \<times> effect list" where
  "Connection_join st this k pid =
     (let st1 = st\<lparr>heap := (heap st)(this := (heap st this)\<lparr>room := Some k, playerId := pid\<rparr>)\<rparr>;
          st2 = Room_add st1 k this
      in (st2,
          Room_broadcast st2 k (\<lambda>c. c \<noteq> this) Join [Str this, playerId (heap st2 this)]
          @ [Connection_send st2 this SetClients [Room_clients st2 k (\<lambda>c. c \<noteq> this)]]))"

text \<open>\<^verbatim>\<open>leave\<close> dereferences \<^verbatim>\<open>this.room\<close> without a test: a TypeError when it is unset.\<close>

definition Connection_leave :: "state \<Rightarrow> conn_id \<Rightarrow> exn + state" where
  "Connection_leave st this =
     (case room (heap st this) of
        None \<Rightarrow> Inl TypeError
      | Some k \<Rightarrow>
          (let st1 = Room_remove st k this
           in Inr (st1\<lparr>heap := (heap st1)(this := (heap st1 this)\<lparr>room := None\<rparr>)\<rparr>)))"

definition Connection_setId :: "state \<Rightarrow> conn_id \<Rightarrow> jsval \<Rightarrow> jsval \<Rightarrow> state \<times> effect list" where
  "Connection_setId st this pid cid =
     (let st1 = st\<lparr>heap := (heap st)(this := (heap st this)\<lparr>playerId := pid, clientId := cid\<rparr>)\<rparr>
      in (st1,
          case room (heap st1 this) of
            None \<Rightarrow> []
          | Some k \<Rightarrow>
              Room_broadcast st1 k (\<lambda>c. c \<noteq> this) SetClient
                [Obj [(''id'', playerId (heap st1 this)),
                      (''clientId'', clientId (heap st1 this))]]))"

section \<open>The socket handlers (index.ts)\<close>

text \<open>
  The handlers are modelled at the types their parameters are declared with where
  the code relies on them (\<^verbatim>\<open>c: string\<close>, \<^verbatim>\<open>peer: string\<close>); the player and client
  ids, which are only stored, compared and sent on, are any value. \<open>fresh\<close> is the id
  the ID source returns.
\<close>

definition on_authenticate :: "state \<Rightarrow> sock \<Rightarrow> jsval \<Rightarrow> conn_id \<Rightarrow> result" where
  "on_authenticate st sk data fresh =
     (let st1 = st\<lparr>heap := (heap st)(fresh := new_Connection sk),
                   connections := connections st @ [fresh],
                   connection_of := (connection_of st)(sk \<mapsto> fresh)\<rparr>
      in (st1, [Connection_send st1 fresh Authentication [Obj [(''id'', Str fresh)]]], Returned))"

definition on_join :: "state \<Rightarrow> sock \<Rightarrow> string \<Rightarrow> jsval \<Rightarrow> jsval \<Rightarrow> result" where
  "on_join st sk c pid cid =
     (case connection_of st sk of
        None \<Rightarrow> (st, [Terminate sk], Returned)
      | Some conn \<Rightarrow>
          (let st1 = (if rooms st c = None then st\<lparr>rooms := (rooms st)(c \<mapsto> [])\<rparr> else st)
           in if list_ex (\<lambda>s. clientId (heap st1 s) \<noteq> Null \<and> strict_eq (clientId (heap st1 s)) cid)
                   (room_connections st1 c)
              then (st1, [Terminate sk], Returned)
              else (let (st2, out) = Connection_join st1 conn c pid in (st2, out, Returned))))"

definition on_leave :: "state \<Rightarrow> sock \<Rightarrow> result" where
  "on_leave st sk =
     (case connection_of st sk of
        None \<Rightarrow> (st, [], Returned)
      | Some conn \<Rightarrow>
          (case room (heap st conn) of
             None \<Rightarrow> (st, [], Returned)
           | Some k \<Rightarrow>
               (case Connection_leave st conn of
                  Inl e \<Rightarrow> (st, [], Threw e)
                | Inr st1 \<Rightarrow>
                    (if Room_count st1 k < 1 then st1\<lparr>rooms := (rooms st1)(k := None)\<rparr> else st1,
                     [], Returned))))"

definition on_client :: "state \<Rightarrow> sock \<Rightarrow> jsval \<Rightarrow> jsval \<Rightarrow> result" where
  "on_client st sk pid cid =
     (case connection_of st sk of
        None \<Rightarrow> (st, [], Returned)
      | Some conn \<Rightarrow>
          if not_nullish (clientId (heap st conn)) \<and> \<not> strict_eq (clientId (heap st conn)) cid
          then (st, [Terminate sk], Returned)
          else (let (st1, out) = Connection_setId st conn pid cid in (st1, out, Returned)))"

definition on_signal :: "state \<Rightarrow> sock \<Rightarrow> string \<Rightarrow> jsval \<Rightarrow> result" where
  "on_signal st sk peer data =
     (case connection_of st sk of
        None \<Rightarrow> (st, [], Returned)
      | Some conn \<Rightarrow>
          (case room (heap st conn) of
             None \<Rightarrow> (st, [], Threw TypeError)
           | Some k \<Rightarrow>
               (case Room_find st k peer of
                  None \<Rightarrow> (st, [], Returned)
                | Some peerConnection \<Rightarrow>
                    (st, [Connection_send st peerConnection Signal [Str conn, data]], Returned))))"

text \<open>
  \<^verbatim>\<open>close\<close> reads \<^verbatim>\<open>connection.room\<close> and calls \<^verbatim>\<open>connection.leave()\<close> with no test of
  the room, unlike the \<^verbatim>\<open>leave\<close> handler: the TypeError of \<^verbatim>\<open>leave\<close> ends the handler
  before the registry is touched.
\<close>

definition on_close :: "state \<Rightarrow> sock \<Rightarrow> result" where
  "on_close st sk =
     (case connection_of st sk of
        None \<Rightarrow> (st, [], Returned)
      | Some conn \<Rightarrow>
          (case Connection_leave st conn of
             Inl e \<Rightarrow> (st, [], Threw e)
           | Inr st1 \<Rightarrow>
               (case room (heap st conn) of
                  None \<Rightarrow> (st1, [], Threw TypeError)
                | Some k \<Rightarrow>
                    (let st2 = (if Room_count st1 k < 1
                                then st1\<lparr>rooms := (rooms st1)(k := None)\<rparr> else st1)
                     in (st2\<lparr>connections := remove1 conn (connections st2)\<rparr>, [], Returned)))))"

text \<open>\<^verbatim>\<open>pong\<close> assigns through \<^verbatim>\<open>connection\<close> with no test: a TypeError on a socket
  that has not authenticated.\<close>

definition on_pong :: "state \<Rightarrow> sock \<Rightarrow> result" where
  "on_pong st sk =
     (case connection_of st sk of
        None \<Rightarrow> (st, [], Threw TypeError)
      | Some conn \<Rightarrow>
          (st\<lparr>heap := (heap st)(conn := (heap st conn)\<lparr>isAlive := Some True\<rparr>)\<rparr>, [], Returned))"

subsection \<open>The liveness sweep\<close>

text \<open>
  The callback of \<^verbatim>\<open>connections.forEach\<close> in \<^verbatim>\<open>ping\<close>, and the loop. The loop records
  each call together with the Connection it was made through.
\<close>

definition ping_callback :: "state \<Rightarrow> conn_id \<Rightarrow> state \<times> effect" where
  "ping_callback st c =
     (if isAlive (heap st c) = Some False
      then (st, Terminate (socket (heap st c)))
      else (st\<lparr>heap := (heap st)(c := (heap st c)\<lparr>isAlive := Some False\<rparr>)\<rparr>,
            Ping (socket (heap st c))))"

fun forEach_ping :: "conn_id list \<Rightarrow> state \<Rightarrow> state \<times> (conn_id \<times> effect) list" where
  "forEach_ping [] st = (st, [])"
| "forEach_ping (c # cs) st =
     (let (st1, e) = ping_callback st c;
          (st2, es) = forEach_ping cs st1
      in (st2, (c, e) # es))"

definition ping :: "state \<Rightarrow> state \<times> (conn_id \<times> effect) list" where
  "ping st = forEach_ping (connections st) st"

text \<open>What the callback does for a Connection \<open>x\<close>, as a function of its fields.\<close>

definition probe :: "connection \<Rightarrow> effect" where
  "probe x = (if isAlive x = Some False then Terminate (socket x) else Ping (socket x))"

subsection \<open>The message handler\<close>

text \<open>
  \<^verbatim>\<open>data?.length\<close>: the length of an array or a string, the property of that name of
  an object, and \<^verbatim>\<open>undefined\<close> for null (by the optional chaining) and for numbers and
  booleans, which have no such property.
\<close>

fun js_length :: "jsval \<Rightarrow> jsval" where
  "js_length (Arr xs) = Num (int (length xs))"
| "js_length (Str s) = Num (int (length s))"
| "js_length (Obj kvs) = (case map_of kvs ''length'' of Some v \<Rightarrow> v | None \<Rightarrow> Undefined)"
| "js_length v = Undefined"

text \<open>
  \<^verbatim>\<open>v < n\<close> for a number \<open>n\<close>: \<^verbatim>\<open>undefined\<close> converts to NaN, which is less than
  nothing; null converts to 0 and the booleans to 0 and 1. The conversion of strings,
  arrays and objects to numbers is not modelled (\<open>None\<close>).
\<close>

fun less_than :: "jsval \<Rightarrow> int \<Rightarrow> bool option" where
  "less_than Undefined n = Some False"
| "less_than Null n = Some (0 < n)"
| "less_than (Bool b) n = Some ((if b then 1 else 0) < n)"
| "less_than (Num m) n = Some (m < n)"
| "less_than v n = None"

text \<open>
  \<^verbatim>\<open>data[i]\<close> for the indices 0, 1 and 2 the handler reads, on a value that is neither
  null nor undefined (on those the read raises a TypeError).
\<close>

definition index_key :: "nat \<Rightarrow> string" where
  "index_key i = (if i = 0 then ''0'' else if i = 1 then ''1'' else ''2'')"

fun js_index :: "jsval \<Rightarrow> nat \<Rightarrow> jsval" where
  "js_index (Arr xs) i = (if i < length xs then xs ! i else Undefined)"
| "js_index (Str s) i = (if i < length s then Str [s ! i] else Undefined)"
| "js_index (Obj kvs) i = (case map_of kvs (index_key i) of Some v \<Rightarrow> v | None \<Rightarrow> Undefined)"
| "js_index v i = Undefined"

definition nullish :: "jsval \<Rightarrow> bool" where
  "nullish v = (v = Null \<or> v = Undefined)"

text \<open>
  \<^verbatim>\<open>socket.on('message')\<close>, lines 396-453 of index.ts. \<^verbatim>\<open>socket.emit\<close> runs the
  listener of the named event at once, so each case ends in the handler it emits to.
\<close>

definition on_message :: "(buffer \<Rightarrow> jsval option) \<Rightarrow> conn_id \<Rightarrow> state \<Rightarrow> sock \<Rightarrow> buffer \<Rightarrow> result" where
  "on_message parse fresh st sk buf =
     (case decode parse buf of
        Malformed \<Rightarrow> (st, [Terminate sk], Returned)
      | Thrown e \<Rightarrow> (st, [], Threw e)
      | Decoded type data \<Rightarrow>
          (case Events_of type of
             Some Authentication \<Rightarrow>
               if \<not> truthy data then (st, [Terminate sk], Returned)
               else on_authenticate st sk data fresh
           | Some Join \<Rightarrow>
               (case less_than (js_length data) 3 of
                  None \<Rightarrow> (st, [], NotModelled)
                | Some True \<Rightarrow> (st, [Terminate sk], Returned)
                | Some False \<Rightarrow>
                    if nullish data then (st, [], Threw TypeError)
                    else (case js_index data 0 of
                            Str c \<Rightarrow> on_join st sk c (js_index data 1) (js_index data 2)
                          | _ \<Rightarrow> (st, [], NotModelled)))
           | Some Leave \<Rightarrow> on_leave st sk
           | Some SetClient \<Rightarrow>
               (case less_than (js_length data) 2 of
                  None \<Rightarrow> (st, [], NotModelled)
                | Some True \<Rightarrow> (st, [Terminate sk], Returned)
                | Some False \<Rightarrow>
                    if nullish data then (st, [], Threw TypeError)
                    else on_client st sk (js_index data 0) (js_index data 1))
           | Some Signal \<Rightarrow>
               (case less_than (js_length data) 2 of
                  None \<Rightarrow> (st, [], NotModelled)
                | Some True \<Rightarrow> (st, [Terminate sk], Returned)
                | Some False \<Rightarrow>
                    if nullish data then (st, [], Threw TypeError)
                    else (case js_index data 0 of
                            Str peer \<Rightarrow> on_signal st sk peer (js_index data 1)
                          | _ \<Rightarrow> (st, [], NotModelled)))
           | _ \<Rightarrow> (st, [Terminate sk], Returned)))"

subsection \<open>Runs\<close>

text \<open>
  The events the server reacts to, each with the socket it arrives on: the five
  events the message handler emits, the socket's \<^verbatim>\<open>close\<close> and \<^verbatim>\<open>pong\<close>, and the tick
  of the 30-second interval. An exception leaves the state as the handler had it when
  it was raised.
\<close>

datatype event =
    EAuthenticate sock jsval conn_id
  | EJoin sock string jsval jsval
  | ELeave sock
  | EClient sock jsval jsval
  | ESignal sock string jsval
  | EClose sock
  | EPong sock
  | ESweep

fun step :: "state \<Rightarrow> event \<Rightarrow> result" where
  "step st (EAuthenticate sk data fresh) = on_authenticate st sk data fresh"
| "step st (EJoin sk c pid cid) = on_join st sk c pid cid"
| "step st (ELeave sk) = on_leave st sk"
| "step st (EClient sk pid cid) = on_client st sk pid cid"
| "step st (ESignal sk peer data) = on_signal st sk peer data"
| "step st (EClose sk) = on_close st sk"
| "step st (EPong sk) = on_pong st sk"
| "step st ESweep = (let (st1, calls) = ping st in (st1, map snd calls, Returned))"

fun run :: "state \<Rightarrow> event list \<Rightarrow> state" where
  "run st [] = st"
| "run st (e # es) = run (fst (step st e)) es"

section \<open>Properties of the wire codec\<close>

lemma unat_byte_of_nat: "n < 256 \<Longrightarrow> unat (word_of_nat n :: byte) = n"
  by (simp add: unat_of_nat)

lemma readUInt16BE_write:
  assumes "n \<le> 65535"
  shows "readUInt16BE (b # word_of_nat (n div 256) # word_of_nat (n mod 256) # rest) 1 = n"
proof -
  have "n div 256 < 256" using assms by simp
  then show ?thesis
    by (simp add: readUInt16BE_def unat_byte_of_nat)
qed

lemma send_frame:
  assumes "event \<le> 255" and "send_payload data = Some p" and "length (stringify p) \<le> 65535"
  shows "send stringify event data =
           Inr (word_of_nat event # word_of_nat (length (stringify p) div 256)
                  # word_of_nat (length (stringify p) mod 256) # stringify p)"
  using assms by (simp add: send_def writeUInt8_def writeUInt16BE_def)

lemma send_no_payload:
  assumes "event \<le> 255"
  shows "send stringify event [] = Inr [word_of_nat event, 0, 0]"
  using assms by (simp add: send_def send_payload_def writeUInt8_def writeUInt16BE_def)

lemma decode_frame:
  assumes "event \<le> 255" and "0 < length bs" and "length bs \<le> 65535"
  shows "decode parse (word_of_nat event # word_of_nat (length bs div 256)
                         # word_of_nat (length bs mod 256) # bs)
         = (case parse bs of None \<Rightarrow> Thrown SyntaxError | Some d \<Rightarrow> Decoded event d)"
proof -
  have "readUInt8 (word_of_nat event # word_of_nat (length bs div 256)
                     # word_of_nat (length bs mod 256) # bs) 0 = event"
    using assms(1) by (simp add: readUInt8_def unat_byte_of_nat)
  moreover have "readUInt16BE (word_of_nat event # word_of_nat (length bs div 256)
                     # word_of_nat (length bs mod 256) # bs) 1 = length bs"
    using assms(3) by (rule readUInt16BE_write)
  ultimately show ?thesis
    using assms(2) by (simp add: decode_def Let_def)
qed

lemma sample_stringify_simps:
  "sample_stringify (Num 5) = [0x35]"
  "sample_stringify (Arr [Num 5]) = [0x5B, 0x35, 0x5D]"
  "sample_stringify (Obj []) = [0x7B, 0x7D]"
  "sample_stringify (Arr [Obj [], Num 2]) = [0x5B, 0x7B, 0x7D, 0x2C, 0x32, 0x5D]"
  by (simp_all add: sample_stringify_def sample_json_def)

lemma sample_parse_simps:
  "sample_parse [0x35] = Some (Num 5)"
  "sample_parse [0x5B, 0x35, 0x5D] = Some (Arr [Num 5])"
  "sample_parse [0x7B, 0x7D] = Some (Obj [])"
  "sample_parse [0x5B, 0x31, 0x2C, 0x31, 0x30, 0x30, 0x5D] = Some (Arr [Num 1, Num 100])"
  by (simp_all add: sample_parse_def sample_json_def)

text \<open>
  C3 (as amended). For every event code up to 255: a call of \<open>send\<close> with no payload
  gives a frame that decodes to the event code and \<open>null\<close>; a call with one payload
  that is an object or an array, whose serialisation has 1 to 65535 bytes and is
  parsed back to the payload by the JSON library, gives a frame whose first byte is the
  event code, whose bytes 1-2 are the big-endian length of the serialisation, whose
  remaining bytes are the serialisation, and which decodes to exactly the event code
  and the payload.
\<close>

theorem codec_round_trip:
  assumes "event \<le> 255"
    and "instanceof_Object p"
    and "0 < length (stringify p)"
    and "length (stringify p) \<le> 65535"
    and "parse (stringify p) = Some p"
  shows "(\<exists>buf. send stringify event [p] = Inr buf
            \<and> readUInt8 buf 0 = event
            \<and> readUInt16BE buf 1 = length (stringify p)
            \<and> drop 3 buf = stringify p
            \<and> decode parse buf = Decoded event p)
       \<and> (\<exists>buf. send stringify event [] = Inr buf
            \<and> length buf = 3
            \<and> decode parse buf = Decoded event Null)"
proof
  let ?bs = "stringify p"
  let ?buf = "word_of_nat event # word_of_nat (length ?bs div 256)
                # word_of_nat (length ?bs mod 256) # ?bs"
  have payload: "send_payload [p] = Some p"
    using assms(2) by (simp add: send_payload_def)
  have sent: "send stringify event [p] = Inr ?buf"
    using send_frame [where stringify = stringify and p = p, OF assms(1) payload assms(4)] .
  have code: "readUInt8 ?buf 0 = event"
    using assms(1) by (simp add: readUInt8_def unat_byte_of_nat)
  have len: "readUInt16BE ?buf 1 = length ?bs"
    using assms(4) by (rule readUInt16BE_write)
  have dec: "decode parse ?buf = Decoded event p"
    using decode_frame [OF assms(1) assms(3) assms(4), of parse] assms(5) by simp
  show "\<exists>buf. send stringify event [p] = Inr buf
            \<and> readUInt8 buf 0 = event
            \<and> readUInt16BE buf 1 = length (stringify p)
            \<and> drop 3 buf = stringify p
            \<and> decode parse buf = Decoded event p"
    using sent code len dec by simp
next
  have "decode parse [word_of_nat event, 0, 0] = Decoded event Null"
    using assms(1)
    by (simp add: decode_def readUInt8_def readUInt16BE_def unat_byte_of_nat)
  then show "\<exists>buf. send stringify event [] = Inr buf
            \<and> length buf = 3
            \<and> decode parse buf = Decoded event Null"
    using send_no_payload [OF assms(1), of stringify] by simp
qed

theorem codec_round_trip_witness:
  "(4::nat) \<le> 255
   \<and> instanceof_Object (Obj [])
   \<and> 0 < length (sample_stringify (Obj []))
   \<and> length (sample_stringify (Obj [])) \<le> 65535
   \<and> sample_parse (sample_stringify (Obj [])) = Some (Obj [])
   \<and> send sample_stringify 4 [Obj []] = Inr [4, 0, 2, 0x7B, 0x7D]
   \<and> decode sample_parse [4, 0, 2, 0x7B, 0x7D] = Decoded 4 (Obj [])"
proof -
  have h: "instanceof_Object (Obj [])"
    "0 < length (sample_stringify (Obj []))"
    "length (sample_stringify (Obj [])) \<le> 65535"
    "sample_parse (sample_stringify (Obj [])) = Some (Obj [])"
    by (simp_all add: sample_stringify_simps sample_parse_simps)
  have e: "(4::nat) \<le> 255" by simp
  from codec_round_trip [where stringify = sample_stringify and parse = sample_parse
      and event = 4 and p = "Obj []", OF e h]
  have "\<exists>buf. send sample_stringify 4 [Obj []] = Inr buf
          \<and> drop 3 buf = sample_stringify (Obj [])
          \<and> decode sample_parse buf = Decoded 4 (Obj [])"
    by blast
  moreover have "send sample_stringify 4 [Obj []] = Inr [4, 0, 2, 0x7B, 0x7D]"
    by (simp add: send_def send_payload_def writeUInt8_def writeUInt16BE_def
        sample_stringify_simps)
  ultimately show ?thesis
    using e h by auto
qed

text \<open>
  C3 as stated fails for a payload that is not an object: the number 5 serialises to
  one byte and parses back, but \<open>send\<close> wraps it, so the frame carries \<^verbatim>\<open>[5]\<close> and
  decodes to the one-element array.
\<close>

theorem codec_round_trip_counterexample:
  "sample_parse (sample_stringify (Num 5)) = Some (Num 5)
   \<and> length (sample_stringify (Num 5)) \<le> 65535
   \<and> send sample_stringify 1 [Num 5] = Inr [1, 0, 3, 0x5B, 0x35, 0x5D]
   \<and> decode sample_parse [1, 0, 3, 0x5B, 0x35, 0x5D] = Decoded 1 (Arr [Num 5])
   \<and> decode sample_parse [1, 0, 3, 0x5B, 0x35, 0x5D] \<noteq> Decoded 1 (Num 5)"
  by (simp add: send_def send_payload_def writeUInt8_def writeUInt16BE_def decode_def
      readUInt8_def readUInt16BE_def sample_stringify_simps sample_parse_simps)

text \<open>What \<open>send\<close> does with one argument that is not an object: the frame carries, and
  decodes to, the one-element array.\<close>

lemma codec_wraps_primitive:
  assumes "event \<le> 255"
    and "\<not> instanceof_Object p"
    and "0 < length (stringify (Arr [p]))"
    and "length (stringify (Arr [p])) \<le> 65535"
    and "parse (stringify (Arr [p])) = Some (Arr [p])"
  shows "\<exists>buf. send stringify event [p] = Inr buf \<and> decode parse buf = Decoded event (Arr [p])"
proof -
  have payload: "send_payload [p] = Some (Arr [p])"
    using assms(2) by (simp add: send_payload_def)
  show ?thesis
    using send_frame [where stringify = stringify and p = "Arr [p]", OF assms(1) payload assms(4)]
      decode_frame [OF assms(1) assms(3) assms(4), of parse] assms(5)
    by simp
qed

text \<open>
  C8 (as amended). For every call of \<open>send\<close> with at least one argument (event code up
  to 255, serialisation up to 65535 bytes) the frame is a 3-byte header followed by
  the serialisation of one value: the first argument alone when it is an object or an
  array, however many arguments follow it; the array of all arguments, in order, when
  the first argument is not an object.
\<close>

theorem send_argument_rule:
  assumes "event \<le> 255"
    and "data \<noteq> []"
    and "v = (if instanceof_Object (hd data) then hd data else Arr data)"
    and "length (stringify v) \<le> 65535"
  shows "\<exists>buf. send stringify event data = Inr buf
           \<and> take 3 buf = [word_of_nat event, word_of_nat (length (stringify v) div 256),
                            word_of_nat (length (stringify v) mod 256)]
           \<and> drop 3 buf = stringify v"
proof -
  have "send_payload data = Some v"
    using assms(2,3) by (simp add: send_payload_def)
  from send_frame [where stringify = stringify and p = v, OF assms(1) this assms(4)]
  show ?thesis by simp
qed

theorem send_argument_rule_witness:
  "(1::nat) \<le> 255
   \<and> [Obj [], Num 2] \<noteq> []
   \<and> Obj [] = (if instanceof_Object (hd [Obj [], Num 2]) then hd [Obj [], Num 2]
               else Arr [Obj [], Num 2])
   \<and> length (sample_stringify (Obj [])) \<le> 65535
   \<and> (\<exists>buf. send sample_stringify 1 [Obj [], Num 2] = Inr buf
         \<and> drop 3 buf = sample_stringify (Obj []))
   \<and> [Num 5] \<noteq> []
   \<and> Arr [Num 5] = (if instanceof_Object (hd [Num 5]) then hd [Num 5] else Arr [Num 5])
   \<and> length (sample_stringify (Arr [Num 5])) \<le> 65535
   \<and> (\<exists>buf. send sample_stringify 1 [Num 5] = Inr buf
         \<and> drop 3 buf = sample_stringify (Arr [Num 5]))"
proof -
  have h: "(1::nat) \<le> 255" "[Obj [], Num 2] \<noteq> []"
    "Obj [] = (if instanceof_Object (hd [Obj [], Num 2]) then hd [Obj [], Num 2]
               else Arr [Obj [], Num 2])"
    "length (sample_stringify (Obj [])) \<le> 65535"
    by (simp_all add: sample_stringify_simps)
  have k: "(1::nat) \<le> 255" "[Num 5] \<noteq> []"
    "Arr [Num 5] = (if instanceof_Object (hd [Num 5]) then hd [Num 5] else Arr [Num 5])"
    "length (sample_stringify (Arr [Num 5])) \<le> 65535"
    by (simp_all add: sample_stringify_simps)
  from send_argument_rule [where stringify = sample_stringify and event = 1
      and data = "[Obj [], Num 2]" and v = "Obj []", OF h]
    send_argument_rule [where stringify = sample_stringify and event = 1
      and data = "[Num 5]" and v = "Arr [Num 5]", OF k] h k
  show ?thesis by blast
qed

text \<open>
  C8 as stated fails when the first of several arguments is an object: the call
  \<^verbatim>\<open>send(1, {}, 2)\<close> serialises \<^verbatim>\<open>{}\<close> alone and drops the 2, where the claim has
  the array \<^verbatim>\<open>[{},2]\<close>.
\<close>

theorem send_argument_rule_counterexample:
  "send_payload [Obj [], Num 2] = Some (Obj [])
   \<and> send_payload [Obj [], Num 2] \<noteq> Some (Arr [Obj [], Num 2])
   \<and> send sample_stringify 1 [Obj [], Num 2] = Inr [1, 0, 2, 0x7B, 0x7D]
   \<and> sample_stringify (Arr [Obj [], Num 2]) = [0x5B, 0x7B, 0x7D, 0x2C, 0x32, 0x5D]"
  by (simp add: send_def send_payload_def writeUInt8_def writeUInt16BE_def
      sample_stringify_simps)

section \<open>Properties of the handlers\<close>

lemmas model_defs =
  init_def new_Connection_def room_connections_def Connection_send_def Room_broadcast_def
  Room_count_def Room_find_def Room_add_def Room_remove_def client_entry_def Room_clients_def
  Connection_join_def Connection_leave_def Connection_setId_def
  on_authenticate_def on_join_def on_leave_def on_client_def on_signal_def on_close_def
  on_pong_def strict_eq_def not_nullish_def

subsection \<open>Join\<close>

text \<open>
  C1. Anti-spoof on Join. Let a room of the map have a member \<open>s\<close> whose \<^verbatim>\<open>clientId\<close> is
  \<open>X\<close>, where \<open>X\<close> is not null (and is a primitive value, as a client id is). A Join
  for that room that asserts the client id \<open>X\<close>, on any socket, makes the handler
  terminate that socket and return with the whole state as it was: the member list of
  the room and the membership of \<open>s\<close> are unchanged.
\<close>

theorem join_anti_spoof:
  assumes "rooms st c = Some members"
    and "s \<in> set members"
    and "clientId (heap st s) = X"
    and "X \<noteq> Null"
    and "\<not> instanceof_Object X"
  shows "on_join st sk c pid X = (st, [Terminate sk], Returned)"
proof (cases "connection_of st sk")
  case None
  then show ?thesis by (simp add: on_join_def)
next
  case (Some conn)
  have "list_ex (\<lambda>s. clientId (heap st s) \<noteq> Null \<and> strict_eq (clientId (heap st s)) X)
          (room_connections st c)"
    using assms by (auto simp: list_ex_iff room_connections_def strict_eq_def)
  then show ?thesis
    using Some assms(1) by (simp add: on_join_def)
qed

theorem join_anti_spoof_witness:
  "rooms (run init [EAuthenticate 1 (Obj []) ''1'', EJoin 1 ''A'' (Num 1) (Num 100),
                   EClient 1 (Num 1) (Num 100), EAuthenticate 2 (Obj []) ''2'']) ''A''
     = Some [''1'']
   \<and> ''1'' \<in> set [''1'']
   \<and> clientId (heap (run init [EAuthenticate 1 (Obj []) ''1'', EJoin 1 ''A'' (Num 1) (Num 100),
                   EClient 1 (Num 1) (Num 100), EAuthenticate 2 (Obj []) ''2'']) ''1'') = Num 100
   \<and> Num 100 \<noteq> Null
   \<and> \<not> instanceof_Object (Num 100)
   \<and> connection_of (run init [EAuthenticate 1 (Obj []) ''1'', EJoin 1 ''A'' (Num 1) (Num 100),
                   EClient 1 (Num 1) (Num 100), EAuthenticate 2 (Obj []) ''2'']) 2 = Some ''2''
   \<and> on_join (run init [EAuthenticate 1 (Obj []) ''1'', EJoin 1 ''A'' (Num 1) (Num 100),
                   EClient 1 (Num 1) (Num 100), EAuthenticate 2 (Obj []) ''2'']) 2 ''A'' (Num 2) (Num 100)
     = (run init [EAuthenticate 1 (Obj []) ''1'', EJoin 1 ''A'' (Num 1) (Num 100),
                   EClient 1 (Num 1) (Num 100), EAuthenticate 2 (Obj []) ''2''], [Terminate 2], Returned)"
proof -
  let ?st = "run init [EAuthenticate 1 (Obj []) ''1'', EJoin 1 ''A'' (Num 1) (Num 100),
                   EClient 1 (Num 1) (Num 100), EAuthenticate 2 (Obj []) ''2'']"
  have h: "rooms ?st ''A'' = Some [''1'']" "''1'' \<in> set [''1'']"
    "clientId (heap ?st ''1'') = Num 100" "Num 100 \<noteq> Null" "\<not> instanceof_Object (Num 100)"
    by (simp_all add: model_defs)
  have k: "connection_of ?st 2 = Some ''2''"
    by (simp add: model_defs)
  from join_anti_spoof [OF h, of 2 "Num 2"] h k show ?thesis by simp
qed

text \<open>
  C2. One room per connection does not hold of the code: \<^verbatim>\<open>Connection.join\<close> sets
  \<^verbatim>\<open>this.room\<close> and adds the connection to the new room without taking it out of the
  room it was in. After Authenticate, Join of room A and Join of room B on one socket,
  the connection is in the member lists of both rooms of the map; when the socket then
  closes, the connection leaves room B and the registry and stays a member of room A.
\<close>

theorem second_join_keeps_first_room:
  "rooms (run init [EAuthenticate 1 (Obj []) ''1'', EJoin 1 ''A'' (Num 1) (Num 100),
                   EJoin 1 ''B'' (Num 1) (Num 100)]) ''A'' = Some [''1'']
   \<and> rooms (run init [EAuthenticate 1 (Obj []) ''1'', EJoin 1 ''A'' (Num 1) (Num 100),
                   EJoin 1 ''B'' (Num 1) (Num 100)]) ''B'' = Some [''1'']
   \<and> rooms (run init [EAuthenticate 1 (Obj []) ''1'', EJoin 1 ''A'' (Num 1) (Num 100),
                   EJoin 1 ''B'' (Num 1) (Num 100), EClose 1]) ''A'' = Some [''1'']
   \<and> rooms (run init [EAuthenticate 1 (Obj []) ''1'', EJoin 1 ''A'' (Num 1) (Num 100),
                   EJoin 1 ''B'' (Num 1) (Num 100), EClose 1]) ''B'' = None
   \<and> connections (run init [EAuthenticate 1 (Obj []) ''1'', EJoin 1 ''A'' (Num 1) (Num 100),
                   EJoin 1 ''B'' (Num 1) (Num 100), EClose 1]) = []"
  by (simp add: model_defs)

text \<open>
  C7. The snapshot sent to a joiner is built by \<^verbatim>\<open>Room.clients\<close>, which keeps a member
  when \<^verbatim>\<open>s.playerId\<close> is truthy. A peer that joined and sent SetClient with player id 0
  is left out: the joiner's SetClients message carries the empty mapping.
\<close>

theorem snapshot_omits_player_zero:
  "playerId (heap (run init [EAuthenticate 1 (Obj []) ''1'', EJoin 1 ''A'' (Num 0) (Num 100),
       EClient 1 (Num 0) (Num 100), EAuthenticate 2 (Obj []) ''2'']) ''1'') = Num 0
   \<and> rooms (run init [EAuthenticate 1 (Obj []) ''1'', EJoin 1 ''A'' (Num 0) (Num 100),
       EClient 1 (Num 0) (Num 100), EAuthenticate 2 (Obj []) ''2'']) ''A'' = Some [''1'']
   \<and> fst (snd (step (run init [EAuthenticate 1 (Obj []) ''1'', EJoin 1 ''A'' (Num 0) (Num 100),
       EClient 1 (Num 0) (Num 100), EAuthenticate 2 (Obj []) ''2''])
         (EJoin 2 ''A'' (Num 1) (Num 200))))
     = [Send 1 Join [Str ''2'', Num 1], Send 2 SetClients [Obj []]]"
  by (simp add: model_defs)

text \<open>The snapshot in general: the members other than those the test rejects whose
  player id is truthy, each with its two ids.\<close>

lemma map_of_obj_set: "map_of (obj_set kvs k v) = (map_of kvs)(k \<mapsto> v)"
  by (induction kvs k v rule: obj_set.induct) auto

lemma map_of_clients_fold:
  "map_of (fold (\<lambda>s ids. if truthy (playerId (heap st s))
                         then obj_set ids s (client_entry (heap st s)) else ids) xs acc) c
   = (if c \<in> set xs \<and> truthy (playerId (heap st c))
      then Some (client_entry (heap st c)) else map_of acc c)"
  by (induction xs arbitrary: acc) (auto simp: map_of_obj_set)

lemma Room_clients_lookup:
  assumes "Room_clients st k test = Obj ids"
  shows "map_of ids c =
           (if c \<in> set (room_connections st k) \<and> test c \<and> truthy (playerId (heap st c))
            then Some (client_entry (heap st c)) else None)"
  using assms map_of_clients_fold [of st "filter test (room_connections st k)" "[]" c]
  by (auto simp: Room_clients_def)

subsection \<open>Malformed frames\<close>

text \<open>
  C4. A Join frame with declared length 0 is not terminated: \<^verbatim>\<open>data\<close> stays null,
  \<^verbatim>\<open>data?.length\<close> is undefined, \<^verbatim>\<open>undefined < 3\<close> is false, and the read of
  \<^verbatim>\<open>data[0]\<close> raises a TypeError. The state is unchanged and no effect is produced,
  whatever the socket.
\<close>

theorem join_without_payload_throws:
  "on_message parse fresh st sk [word_of_nat (Events_code Join), 0, 0]
     = (st, [], Threw TypeError)"
  by (simp add: on_message_def decode_def readUInt8_def readUInt16BE_def Events_of_def
      nullish_def)

text \<open>The other half of C4 holds: a Join frame whose payload is an array of fewer
  than 3 elements terminates the socket and leaves the state as it was.\<close>

lemma join_short_array_terminates:
  assumes "decode parse buf = Decoded (Events_code Join) (Arr xs)" and "length xs < 3"
  shows "on_message parse fresh st sk buf = (st, [Terminate sk], Returned)"
  using assms by (simp add: on_message_def Events_of_def)

subsection \<open>Close\<close>

text \<open>
  C5. The \<^verbatim>\<open>close\<close> handler calls \<^verbatim>\<open>connection.leave()\<close> without testing
  \<^verbatim>\<open>connection.room\<close>. For an authenticated connection that is in no room (it never
  joined, or it has left) the call raises a TypeError and the connection stays in the
  Connection Registry.
\<close>

theorem close_outside_room_throws:
  "step (run init [EAuthenticate 1 (Obj []) ''1'']) (EClose 1)
     = (run init [EAuthenticate 1 (Obj []) ''1''], [], Threw TypeError)
   \<and> connections (run init [EAuthenticate 1 (Obj []) ''1'']) = [''1'']
   \<and> step (run init [EAuthenticate 1 (Obj []) ''1'', EJoin 1 ''A'' (Num 1) (Num 100), ELeave 1])
        (EClose 1)
     = (run init [EAuthenticate 1 (Obj []) ''1'', EJoin 1 ''A'' (Num 1) (Num 100), ELeave 1],
        [], Threw TypeError)
   \<and> connections (run init [EAuthenticate 1 (Obj []) ''1'', EJoin 1 ''A'' (Num 1) (Num 100),
        ELeave 1]) = [''1'']"
  by (simp add: model_defs)

text \<open>The other half of C5 holds: a connection that is in a room is detached from
  it, the room leaves the map when that empties it, and the connection leaves the
  registry.\<close>

lemma close_in_room:
  assumes "connection_of st sk = Some conn" and "room (heap st conn) = Some k"
  shows "\<exists>st'. on_close st sk = (st', [], Returned)
           \<and> connections st' = remove1 conn (connections st)
           \<and> room (heap st' conn) = None
           \<and> (case rooms st k of None \<Rightarrow> rooms st' k = None
               | Some m \<Rightarrow> rooms st' k = (if remove1 conn m = [] then None else Some (remove1 conn m)))"
  using assms by (auto simp: model_defs Let_def split: option.splits)

subsection \<open>Events before authentication\<close>

text \<open>
  C6 (as amended). On a socket that has not authenticated, a SetClient event is
  ignored: the handler returns with the state as it was and terminates nothing. A Join
  event on such a socket terminates it.
\<close>

theorem client_before_authentication:
  assumes "connection_of st sk = None"
  shows "on_client st sk pid cid = (st, [], Returned)
       \<and> on_join st sk c pid cid = (st, [Terminate sk], Returned)"
  using assms by (simp add: on_client_def on_join_def)

theorem client_before_authentication_witness:
  "connection_of init 7 = None
   \<and> on_client init 7 (Num 1) (Num 100) = (init, [], Returned)
   \<and> on_join init 7 ''A'' (Num 1) (Num 100) = (init, [Terminate 7], Returned)"
  using client_before_authentication [of init 7 "Num 1" "Num 100" "''A''"]
  by (simp add: init_def)

text \<open>
  C6 as stated fails: socket 7 has not authenticated, and its SetClient event
  terminates nothing, whether it is given to the handler or arrives as the frame of
  \<^verbatim>\<open>[1,100]\<close>.
\<close>

theorem client_before_authentication_counterexample:
  "connection_of init 7 = None
   \<and> on_client init 7 (Num 1) (Num 100) = (init, [], Returned)
   \<and> Terminate 7 \<notin> set (fst (snd (on_client init 7 (Num 1) (Num 100))))
   \<and> on_message sample_parse ''9'' init 7
        [word_of_nat (Events_code SetClient), 0, 7, 0x5B, 0x31, 0x2C, 0x31, 0x30, 0x30, 0x5D]
       = (init, [], Returned)"
  by (simp add: init_def on_client_def on_message_def decode_def readUInt8_def
      readUInt16BE_def Events_of_def nullish_def sample_parse_simps)

subsection \<open>Signal\<close>

lemma find_eq_Some_mem: "find (\<lambda>s. s = p) xs = Some x \<Longrightarrow> x = p \<and> p \<in> set xs"
  by (induction xs) (auto split: if_splits)

text \<open>
  C10. Signal requires a room. For a Signal event of an authenticated connection:
  when its room is unset, the peer lookup dereferences the absent room and the handler
  raises a TypeError (nothing is sent, nothing is terminated, the state is as it
  was); when it is in a room, the lookup raises no TypeError, and when moreover the
  peer is not a member of that room the message is dropped silently (the handler
  returns, nothing is sent, the state is as it was).
\<close>

theorem signal_requires_room:
  assumes "connection_of st sk = Some conn"
  shows "(room (heap st conn) = None \<longrightarrow>
            on_signal st sk peer data = (st, [], Threw TypeError))
       \<and> (\<forall>k. room (heap st conn) = Some k \<longrightarrow>
             snd (snd (on_signal st sk peer data)) \<noteq> Threw TypeError
           \<and> (peer \<notin> set (room_connections st k) \<longrightarrow>
                on_signal st sk peer data = (st, [], Returned)))"
  using assms
  by (auto simp: on_signal_def Room_find_def split: option.splits dest: find_eq_Some_mem)

theorem signal_requires_room_witness:
  "connection_of (run init [EAuthenticate 1 (Obj []) ''1'']) 1 = Some ''1''
   \<and> room (heap (run init [EAuthenticate 1 (Obj []) ''1'']) ''1'') = None
   \<and> on_signal (run init [EAuthenticate 1 (Obj []) ''1'']) 1 ''2'' (Str ''offer'')
       = (run init [EAuthenticate 1 (Obj []) ''1''], [], Threw TypeError)
   \<and> connection_of (run init [EAuthenticate 1 (Obj []) ''1'', EJoin 1 ''A'' (Num 1) (Num 100)]) 1
       = Some ''1''
   \<and> room (heap (run init [EAuthenticate 1 (Obj []) ''1'', EJoin 1 ''A'' (Num 1) (Num 100)]) ''1'')
       = Some ''A''
   \<and> ''2'' \<notin> set (room_connections
         (run init [EAuthenticate 1 (Obj []) ''1'', EJoin 1 ''A'' (Num 1) (Num 100)]) ''A'')
   \<and> on_signal (run init [EAuthenticate 1 (Obj []) ''1'', EJoin 1 ''A'' (Num 1) (Num 100)])
         1 ''2'' (Str ''offer'')
       = (run init [EAuthenticate 1 (Obj []) ''1'', EJoin 1 ''A'' (Num 1) (Num 100)], [], Returned)"
proof -
  let ?s1 = "run init [EAuthenticate 1 (Obj []) ''1'']"
  let ?s2 = "run init [EAuthenticate 1 (Obj []) ''1'', EJoin 1 ''A'' (Num 1) (Num 100)]"
  have a: "connection_of ?s1 1 = Some ''1''" "room (heap ?s1 ''1'') = None"
    by (simp_all add: model_defs)
  have b: "connection_of ?s2 1 = Some ''1''" "room (heap ?s2 ''1'') = Some ''A''"
    "''2'' \<notin> set (room_connections ?s2 ''A'')"
    by (simp_all add: model_defs)
  from signal_requires_room [OF a(1), of "''2''" "Str ''offer''"] a(2)
  have "on_signal ?s1 1 ''2'' (Str ''offer'') = (?s1, [], Threw TypeError)"
    by blast
  moreover from signal_requires_room [OF b(1), of "''2''" "Str ''offer''"] b(2,3)
  have "on_signal ?s2 1 ''2'' (Str ''offer'') = (?s2, [], Returned)"
    by blast
  ultimately show ?thesis using a b by simp
qed

subsection \<open>Liveness\<close>

lemma ping_callback_frame:
  "connections (fst (ping_callback st c)) = connections st"
  "connection_of (fst (ping_callback st c)) = connection_of st"
  "rooms (fst (ping_callback st c)) = rooms st"
  "c' \<noteq> c \<Longrightarrow> heap (fst (ping_callback st c)) c' = heap st c'"
  "heap (fst (ping_callback st c)) c = (heap st c)\<lparr>isAlive := Some False\<rparr>"
  "snd (ping_callback st c) = probe (heap st c)"
  by (auto simp: ping_callback_def probe_def)

lemma forEach_ping_Cons:
  "forEach_ping (c # cs) st =
     (fst (forEach_ping cs (fst (ping_callback st c))),
      (c, snd (ping_callback st c)) # snd (forEach_ping cs (fst (ping_callback st c))))"
  by (simp add: case_prod_beta)

lemma forEach_ping_frame:
  "connections (fst (forEach_ping cs st)) = connections st
   \<and> connection_of (fst (forEach_ping cs st)) = connection_of st
   \<and> rooms (fst (forEach_ping cs st)) = rooms st"
  by (induction cs arbitrary: st) (simp_all add: forEach_ping_Cons ping_callback_frame del: forEach_ping.simps(2))

lemma forEach_ping_heap:
  "heap (fst (forEach_ping cs st)) c =
     (if c \<in> set cs then (heap st c)\<lparr>isAlive := Some False\<rparr> else heap st c)"
proof (induction cs arbitrary: st)
  case Nil
  then show ?case by simp
next
  case (Cons a cs)
  let ?st1 = "fst (ping_callback st a)"
  have step: "heap (fst (forEach_ping (a # cs) st)) c = heap (fst (forEach_ping cs ?st1)) c"
    by (simp add: forEach_ping_Cons del: forEach_ping.simps(2))
  have IH: "heap (fst (forEach_ping cs ?st1)) c =
      (if c \<in> set cs then (heap ?st1 c)\<lparr>isAlive := Some False\<rparr> else heap ?st1 c)"
    by (rule Cons.IH)
  show ?case
  proof (cases "c = a")
    case True
    have "heap ?st1 c = (heap st c)\<lparr>isAlive := Some False\<rparr>"
      unfolding True by (rule ping_callback_frame(5))
    then show ?thesis
      using step IH True by simp
  next
    case False
    then have "heap ?st1 c = heap st c"
      by (rule ping_callback_frame(4))
    then show ?thesis
      using step IH False by simp
  qed
qed

lemma forEach_ping_calls:
  "distinct cs \<Longrightarrow> snd (forEach_ping cs st) = map (\<lambda>c. (c, probe (heap st c))) cs"
proof (induction cs arbitrary: st)
  case Nil
  then show ?case by simp
next
  case (Cons a cs)
  have "map (\<lambda>c. (c, probe (heap (fst (ping_callback st a)) c))) cs
        = map (\<lambda>c. (c, probe (heap st c))) cs"
  proof (rule map_cong [OF refl])
    fix x assume "x \<in> set cs"
    then have "x \<noteq> a" using Cons.prems by auto
    then show "(x, probe (heap (fst (ping_callback st a)) x)) = (x, probe (heap st x))"
      by (simp add: ping_callback_frame(4))
  qed
  then show ?case
    using Cons.IH [of "fst (ping_callback st a)"] Cons.prems
    by (simp add: forEach_ping_Cons ping_callback_frame(6) del: forEach_ping.simps(2))
qed

lemma run_pongs_frame:
  "connections (run st (map EPong sks)) = connections st
   \<and> connection_of (run st (map EPong sks)) = connection_of st"
  by (induction sks arbitrary: st) (auto simp: on_pong_def split: option.splits)

lemma run_pongs_heap:
  "heap (run st (map EPong sks)) c =
     (if \<exists>k \<in> set sks. connection_of st k = Some c
      then (heap st c)\<lparr>isAlive := Some True\<rparr> else heap st c)"
proof (induction sks arbitrary: st)
  case Nil
  then show ?case by simp
next
  case (Cons k sks)
  let ?st1 = "fst (on_pong st k)"
  have co: "connection_of ?st1 = connection_of st"
    by (simp add: on_pong_def split: option.splits)
  have hp: "heap ?st1 c = (if connection_of st k = Some c
                           then (heap st c)\<lparr>isAlive := Some True\<rparr> else heap st c)"
    by (auto simp: on_pong_def split: option.splits)
  show ?case
    using Cons.IH [of ?st1] co hp by auto
qed

lemma ping_calls:
  assumes "distinct (connections st)"
  shows "snd (ping st) = map (\<lambda>c. (c, probe (heap st c))) (connections st)"
  using assms by (simp add: ping_def forEach_ping_calls)

lemma in_ping_calls:
  assumes "distinct (connections st)"
  shows "(c, e) \<in> set (snd (ping st)) \<longleftrightarrow> c \<in> set (connections st) \<and> e = probe (heap st c)"
  using assms by (auto simp: ping_calls)

text \<open>
  The calls of a sweep, Connection object by Connection object. Let the registry hold
  each Connection once, and \<open>c\<close> be one of them. The call a sweep makes through \<open>c\<close> is
  a probe unless the \<^verbatim>\<open>isAlive\<close> of \<open>c\<close> is false. Let a sweep be followed by any pongs,
  on the sockets \<open>sks\<close>, and by a second sweep: when none of the pongs is on a socket
  whose \<^verbatim>\<open>connection\<close> is \<open>c\<close>, the call of the second sweep through \<open>c\<close> terminates its
  socket; when one is, that call is a probe.
\<close>

lemma sweep_per_connection:
  assumes "distinct (connections st)" and "c \<in> set (connections st)"
    and "st2 = run st (ESweep # map EPong sks)"
  shows "(isAlive (heap st c) \<noteq> Some False \<longrightarrow>
            (c, Ping (socket (heap st c))) \<in> set (snd (ping st))
          \<and> (\<forall>k. (c, Terminate k) \<notin> set (snd (ping st))))
       \<and> ((\<forall>k \<in> set sks. connection_of st k \<noteq> Some c) \<longrightarrow>
            (c, Terminate (socket (heap st c))) \<in> set (snd (ping st2)))
       \<and> ((\<exists>k \<in> set sks. connection_of st k = Some c) \<longrightarrow>
            (c, Ping (socket (heap st c))) \<in> set (snd (ping st2))
          \<and> (\<forall>k. (c, Terminate k) \<notin> set (snd (ping st2))))"
proof -
  let ?st1 = "fst (ping st)"
  have st2: "st2 = run ?st1 (map EPong sks)"
    using assms(3) by (simp add: case_prod_beta)
  have reg1: "connections ?st1 = connections st" "connection_of ?st1 = connection_of st"
    by (simp_all add: ping_def forEach_ping_frame)
  have reg2: "connections st2 = connections st"
    using st2 reg1 by (simp add: run_pongs_frame)
  have heap1: "heap ?st1 c = (heap st c)\<lparr>isAlive := Some False\<rparr>"
    using assms(2) by (simp add: ping_def forEach_ping_heap)
  have heap2: "heap st2 c =
      (if \<exists>k \<in> set sks. connection_of st k = Some c
       then (heap st c)\<lparr>isAlive := Some True\<rparr> else (heap st c)\<lparr>isAlive := Some False\<rparr>)"
    using st2 reg1 heap1 by (simp add: run_pongs_heap)
  have d2: "distinct (connections st2)"
    using reg2 assms(1) by simp
  have c2: "c \<in> set (connections st2)"
    using reg2 assms(2) by simp
  show ?thesis
    using assms(1,2) d2 c2 heap2
    by (auto simp: in_ping_calls probe_def)
qed

lemma sweep_per_connection_example:
  "distinct (connections (run init [EAuthenticate 1 (Obj []) ''1'', EAuthenticate 2 (Obj []) ''2'']))
   \<and> ''1'' \<in> set (connections (run init [EAuthenticate 1 (Obj []) ''1'', EAuthenticate 2 (Obj []) ''2'']))
   \<and> ''2'' \<in> set (connections (run init [EAuthenticate 1 (Obj []) ''1'', EAuthenticate 2 (Obj []) ''2'']))
   \<and> isAlive (heap (run init [EAuthenticate 1 (Obj []) ''1'', EAuthenticate 2 (Obj []) ''2'']) ''1'')
        \<noteq> Some False
   \<and> (''1'', Ping 1)
        \<in> set (snd (ping (run init [EAuthenticate 1 (Obj []) ''1'', EAuthenticate 2 (Obj []) ''2''])))
   \<and> (''1'', Terminate 1)
        \<notin> set (snd (ping (run init [EAuthenticate 1 (Obj []) ''1'', EAuthenticate 2 (Obj []) ''2''])))
   \<and> connection_of (run init [EAuthenticate 1 (Obj []) ''1'', EAuthenticate 2 (Obj []) ''2'']) 2
        = Some ''2''
   \<and> (''1'', Terminate 1)
        \<in> set (snd (ping (run init [EAuthenticate 1 (Obj []) ''1'', EAuthenticate 2 (Obj []) ''2'',
                                     ESweep, EPong 2])))
   \<and> (''2'', Ping 2)
        \<in> set (snd (ping (run init [EAuthenticate 1 (Obj []) ''1'', EAuthenticate 2 (Obj []) ''2'',
                                     ESweep, EPong 2])))
   \<and> (''2'', Terminate 2)
        \<notin> set (snd (ping (run init [EAuthenticate 1 (Obj []) ''1'', EAuthenticate 2 (Obj []) ''2'',
                                     ESweep, EPong 2])))"
proof -
  let ?s0 = "run init [EAuthenticate 1 (Obj []) ''1'', EAuthenticate 2 (Obj []) ''2'']"
  let ?s2 = "run init [EAuthenticate 1 (Obj []) ''1'', EAuthenticate 2 (Obj []) ''2'',
                       ESweep, EPong 2]"
  have reg: "connections ?s0 = [''1'', ''2'']"
    by (simp add: model_defs)
  have d: "distinct (connections ?s0)" and m1: "''1'' \<in> set (connections ?s0)"
    and m2: "''2'' \<in> set (connections ?s0)"
    unfolding reg by simp_all
  have co: "connection_of ?s0 2 = Some ''2''" "connection_of ?s0 1 = Some ''1''"
    by (simp_all add: model_defs)
  have hp: "isAlive (heap ?s0 ''1'') = None" "socket (heap ?s0 ''1'') = 1"
    "socket (heap ?s0 ''2'') = 2"
    by (simp_all add: model_defs)
  have s2: "?s2 = run ?s0 (ESweep # map EPong [2])"
    by simp
  have no_pong: "\<forall>k \<in> set [2::nat]. connection_of ?s0 k \<noteq> Some ''1''"
    using co by simp
  have pong: "\<exists>k \<in> set [2::nat]. connection_of ?s0 k = Some ''2''"
    using co by simp
  from sweep_per_connection [OF d m1 s2] hp no_pong
  have one: "(''1'', Ping 1) \<in> set (snd (ping ?s0))"
    "(''1'', Terminate 1) \<notin> set (snd (ping ?s0))"
    "(''1'', Terminate 1) \<in> set (snd (ping ?s2))"
    by auto
  from sweep_per_connection [OF d m2 s2] hp pong
  have two: "(''2'', Ping 2) \<in> set (snd (ping ?s2))"
    "(''2'', Terminate 2) \<notin> set (snd (ping ?s2))"
    by auto
  show ?thesis
    using d m1 m2 hp(1) co(1) one two by simp
qed

text \<open>
  The effects of a sweep, socket by socket: a sweep terminates a socket exactly when
  a registered Connection on that socket has \<^verbatim>\<open>isAlive\<close> false, and probes it exactly
  when one has not.
\<close>

lemma sweep_effects:
  assumes "distinct (connections st)"
  shows "fst (snd (step st ESweep)) = map (\<lambda>c. probe (heap st c)) (connections st)"
  using assms by (simp add: case_prod_beta ping_calls comp_def)

lemma sweep_terminates_iff:
  assumes "distinct (connections st)"
  shows "Terminate k \<in> set (fst (snd (step st ESweep))) \<longleftrightarrow>
           (\<exists>c \<in> set (connections st). isAlive (heap st c) = Some False \<and> socket (heap st c) = k)"
  unfolding sweep_effects [OF assms] by (auto simp: probe_def split: if_splits)

lemma sweep_pings_iff:
  assumes "distinct (connections st)"
  shows "Ping k \<in> set (fst (snd (step st ESweep))) \<longleftrightarrow>
           (\<exists>c \<in> set (connections st). isAlive (heap st c) \<noteq> Some False \<and> socket (heap st c) = k)"
  unfolding sweep_effects [OF assms] by (auto simp: probe_def split: if_splits)

lemma sweep_pongs_socket:
  "socket (heap (run st (ESweep # map EPong sks)) c) = socket (heap st c)"
proof -
  let ?st1 = "fst (ping st)"
  have "run st (ESweep # map EPong sks) = run ?st1 (map EPong sks)"
    by (simp add: case_prod_beta)
  then show ?thesis
    by (simp add: run_pongs_heap ping_def forEach_ping_heap)
qed

lemma sweep_pongs_isAlive:
  assumes "c \<in> set (connections st)"
  shows "isAlive (heap (run st (ESweep # map EPong sks)) c) =
           Some (\<exists>k \<in> set sks. connection_of st k = Some c)"
proof -
  let ?st1 = "fst (ping st)"
  have "run st (ESweep # map EPong sks) = run ?st1 (map EPong sks)"
    by (simp add: case_prod_beta)
  moreover have "connection_of ?st1 = connection_of st"
    by (simp add: ping_def forEach_ping_frame)
  ultimately show ?thesis
    using assms by (simp add: run_pongs_heap ping_def forEach_ping_heap)
qed

lemma sweep_pongs_connections:
  "connections (run st (ESweep # map EPong sks)) = connections st"
proof -
  let ?st1 = "fst (ping st)"
  have "run st (ESweep # map EPong sks) = run ?st1 (map EPong sks)"
    by (simp add: case_prod_beta)
  then show ?thesis
    by (simp add: run_pongs_frame ping_def forEach_ping_frame)
qed

text \<open>
  For a socket with one registered Connection the eviction rule holds of the socket
  itself: a sweep probes it and does not terminate it unless \<^verbatim>\<open>isAlive\<close> is false; with
  no pong on it before the next sweep, that sweep terminates it; with a pong, that
  sweep probes it again and does not terminate it.
\<close>

lemma liveness_eviction_one_connection_per_socket:
  assumes "distinct (connections st)" and "c \<in> set (connections st)"
    and "\<forall>c' \<in> set (connections st). c' \<noteq> c \<longrightarrow> socket (heap st c') \<noteq> socket (heap st c)"
    and "st2 = run st (ESweep # map EPong sks)"
  shows "(isAlive (heap st c) \<noteq> Some False \<longrightarrow>
            Ping (socket (heap st c)) \<in> set (fst (snd (step st ESweep)))
          \<and> Terminate (socket (heap st c)) \<notin> set (fst (snd (step st ESweep))))
       \<and> ((\<forall>k \<in> set sks. connection_of st k \<noteq> Some c) \<longrightarrow>
            Terminate (socket (heap st c)) \<in> set (fst (snd (step st2 ESweep))))
       \<and> ((\<exists>k \<in> set sks. connection_of st k = Some c) \<longrightarrow>
            Ping (socket (heap st c)) \<in> set (fst (snd (step st2 ESweep)))
          \<and> Terminate (socket (heap st c)) \<notin> set (fst (snd (step st2 ESweep))))"
proof -
  have r2: "connections st2 = connections st"
    unfolding assms(4) by (rule sweep_pongs_connections)
  have d2: "distinct (connections st2)"
    unfolding r2 by (rule assms(1))
  have s2: "\<And>c'. socket (heap st2 c') = socket (heap st c')"
    unfolding assms(4) by (rule sweep_pongs_socket)
  have a2: "\<And>c'. c' \<in> set (connections st) \<Longrightarrow>
      isAlive (heap st2 c') = Some (\<exists>k \<in> set sks. connection_of st k = Some c')"
    unfolding assms(4) by (rule sweep_pongs_isAlive)
  have term_iff: "\<And>s k. distinct (connections s) \<Longrightarrow>
      Terminate k \<in> set (fst (snd (step s ESweep))) \<longleftrightarrow>
        (\<exists>c \<in> set (connections s). isAlive (heap s c) = Some False \<and> socket (heap s c) = k)"
    by (rule sweep_terminates_iff)
  have ping_iff: "\<And>s k. distinct (connections s) \<Longrightarrow>
      Ping k \<in> set (fst (snd (step s ESweep))) \<longleftrightarrow>
        (\<exists>c \<in> set (connections s). isAlive (heap s c) \<noteq> Some False \<and> socket (heap s c) = k)"
    by (rule sweep_pings_iff)
  have only: "\<And>c'. c' \<in> set (connections st) \<Longrightarrow> socket (heap st c') = socket (heap st c)
      \<Longrightarrow> c' = c"
    using assms(3) by blast
  have first: "isAlive (heap st c) \<noteq> Some False \<longrightarrow>
            Ping (socket (heap st c)) \<in> set (fst (snd (step st ESweep)))
          \<and> Terminate (socket (heap st c)) \<notin> set (fst (snd (step st ESweep)))"
  proof (intro impI conjI)
    assume alive: "isAlive (heap st c) \<noteq> Some False"
    show "Ping (socket (heap st c)) \<in> set (fst (snd (step st ESweep)))"
      using ping_iff [OF assms(1)] assms(2) alive by blast
    show "Terminate (socket (heap st c)) \<notin> set (fst (snd (step st ESweep)))"
    proof
      assume "Terminate (socket (heap st c)) \<in> set (fst (snd (step st ESweep)))"
      then obtain c' where c': "c' \<in> set (connections st)" "isAlive (heap st c') = Some False"
          "socket (heap st c') = socket (heap st c)"
        using term_iff [OF assms(1)] by blast
      then have "c' = c" using only by blast
      then show False using c'(2) alive by simp
    qed
  qed
  have second: "(\<forall>k \<in> set sks. connection_of st k \<noteq> Some c) \<longrightarrow>
            Terminate (socket (heap st c)) \<in> set (fst (snd (step st2 ESweep)))"
  proof
    assume "\<forall>k \<in> set sks. connection_of st k \<noteq> Some c"
    then have "isAlive (heap st2 c) = Some False"
      using a2 [OF assms(2)] by simp
    moreover have "c \<in> set (connections st2)"
      using assms(2) r2 by simp
    ultimately show "Terminate (socket (heap st c)) \<in> set (fst (snd (step st2 ESweep)))"
      using term_iff [OF d2, of "socket (heap st c)"] s2 [of c] by blast
  qed
  have third: "(\<exists>k \<in> set sks. connection_of st k = Some c) \<longrightarrow>
            Ping (socket (heap st c)) \<in> set (fst (snd (step st2 ESweep)))
          \<and> Terminate (socket (heap st c)) \<notin> set (fst (snd (step st2 ESweep)))"
  proof (intro impI conjI)
    assume "\<exists>k \<in> set sks. connection_of st k = Some c"
    then have alive: "isAlive (heap st2 c) = Some True"
      using a2 [OF assms(2)] by simp
    have mem: "c \<in> set (connections st2)"
      using assms(2) r2 by simp
    have "isAlive (heap st2 c) \<noteq> Some False"
      using alive by simp
    then show "Ping (socket (heap st c)) \<in> set (fst (snd (step st2 ESweep)))"
      using ping_iff [OF d2, of "socket (heap st c)"] mem s2 [of c] by blast
    show "Terminate (socket (heap st c)) \<notin> set (fst (snd (step st2 ESweep)))"
    proof
      assume "Terminate (socket (heap st c)) \<in> set (fst (snd (step st2 ESweep)))"
      then obtain c' where c': "c' \<in> set (connections st2)" "isAlive (heap st2 c') = Some False"
          "socket (heap st2 c') = socket (heap st c)"
        using term_iff [OF d2, of "socket (heap st c)"] by blast
      have "c' \<in> set (connections st)" using c'(1) r2 by simp
      moreover have "socket (heap st c') = socket (heap st c)" using c'(3) s2 [of c'] by simp
      ultimately have "c' = c" by (rule only)
      then show False using c'(2) alive by simp
    qed
  qed
  show ?thesis using first second third by (intro conjI)
qed

text \<open>
  C9. Liveness eviction does not hold of a socket that has authenticated twice. The
  \<^verbatim>\<open>authenticate\<close> handler has no test of \<^verbatim>\<open>connection\<close>: a second Authentication on
  socket 1 registers a second Connection on it and leaves the first in the registry,
  out of reach of the \<^verbatim>\<open>pong\<close> handler, which sets \<^verbatim>\<open>isAlive\<close> of the socket's current
  Connection only. The first sweep sends socket 1 two probes; the socket answers both;
  its current Connection \<^verbatim>\<open>'2'\<close> has \<^verbatim>\<open>isAlive\<close> true; and the second sweep terminates
  socket 1 all the same, through the Connection \<^verbatim>\<open>'1'\<close>.
\<close>

theorem sweep_terminates_answering_socket:
  "connection_of (run init [EAuthenticate 1 (Obj []) ''1'', EAuthenticate 1 (Obj []) ''2'',
        ESweep, EPong 1, EPong 1]) 1 = Some ''2''
   \<and> connections (run init [EAuthenticate 1 (Obj []) ''1'', EAuthenticate 1 (Obj []) ''2'',
        ESweep, EPong 1, EPong 1]) = [''1'', ''2'']
   \<and> socket (heap (run init [EAuthenticate 1 (Obj []) ''1'', EAuthenticate 1 (Obj []) ''2'',
        ESweep, EPong 1, EPong 1]) ''2'') = 1
   \<and> isAlive (heap (run init [EAuthenticate 1 (Obj []) ''1'', EAuthenticate 1 (Obj []) ''2'',
        ESweep, EPong 1, EPong 1]) ''2'') = Some True
   \<and> fst (snd (step (run init [EAuthenticate 1 (Obj []) ''1'', EAuthenticate 1 (Obj []) ''2''])
        ESweep)) = [Ping 1, Ping 1]
   \<and> fst (snd (step (run init [EAuthenticate 1 (Obj []) ''1'', EAuthenticate 1 (Obj []) ''2'',
        ESweep, EPong 1, EPong 1]) ESweep)) = [Terminate 1, Ping 1]"
  by (simp add: model_defs ping_def ping_callback_def)

end
